theory Spec2Isabelle
  imports Complex_Main
begin

section \<open>Waste processing zone optimizer: the optimization core of app.py\<close>

text \<open>
  The embedding follows the block \<^verbatim>\<open>if run_opt and zone_data:\<close> of app.py: the three
  geometric helper predicates, \<^verbatim>\<open>is_feasible\<close>, the \<^verbatim>\<open>objective\<close> function and the
  call of the numeric solver with its seed and bounds.

  Coordinates and quantities are real numbers that stand for the doubles the program
  holds. The geometric tests compare continuous quantities, so they are computed exactly:
  \<^verbatim>\<open>np.sqrt\<close> is \<^term>\<open>sqrt\<close> and the rounding of the last bit is left out. Two effects
  of double arithmetic change what \<^verbatim>\<open>objective\<close> returns by more than a last bit, and
  both are part of the model:
  \<^item> \<^verbatim>\<open>np.ceil\<close> is a step function, so the rounding of its argument decides the number of
    trips: in doubles \<^verbatim>\<open>(35 / 1000) / (5 / 1000)\<close> is \<^verbatim>\<open>7.000000000000001\<close> and its
    ceiling is 8. The roundings on the way to \<^verbatim>\<open>np.ceil\<close> are computed as the
    hardware computes them (round to nearest, ties to even).
  \<^item> a sum, difference or product whose magnitude leaves the range of the doubles is an
    infinity, and \<^verbatim>\<open>0 * inf\<close> and \<^verbatim>\<open>inf - inf\<close> are \<^verbatim>\<open>nan\<close>; numpy
    returns these values without raising. The cost is therefore a value of the type
    \<open>float64\<close> below.
  Underflow and the rounding of sums, products and square roots stay outside the model.
\<close>

subsection \<open>Geometry as the code consumes it\<close>

type_synonym point = "real \<times> real"

text \<open>
  The code asks one question of a shapely geometry: \<^verbatim>\<open>geom.contains(Point(x, y))\<close>.
  Every geometry splits the plane into its interior, its boundary and its exterior, so a
  geometry is given here by the function that locates a point in one of the three.
\<close>

datatype location = Interior | Boundary | Exterior

type_synonym geometry = "point \<Rightarrow> location"

text \<open>
  \<^verbatim>\<open>a.contains(b)\<close> holds when no point of \<^verbatim>\<open>b\<close> lies in the exterior of \<^verbatim>\<open>a\<close> and
  at least one point of the interior of \<^verbatim>\<open>b\<close> lies in the interior of \<^verbatim>\<open>a\<close>. The
  interior of a \<^verbatim>\<open>Point\<close> is the point itself, so for a point the test is that it lies
  in the interior of \<^verbatim>\<open>a\<close>.
\<close>

definition contains :: "geometry \<Rightarrow> point \<Rightarrow> bool" where
  "contains geom p = (geom p = Interior)"

text \<open>The geometry without any point: every coordinate is in its exterior.\<close>

definition empty_geometry :: geometry where
  "empty_geometry = (\<lambda>p. Exterior)"

text \<open>
  An axis-aligned rectangle with corners \<open>(x0, y0)\<close> and \<open>(x1, y1)\<close>, as a concrete
  polygon for evaluating the functions below.
\<close>

definition box_geometry :: "real \<Rightarrow> real \<Rightarrow> real \<Rightarrow> real \<Rightarrow> geometry" where
  "box_geometry x0 y0 x1 y1 =
     (\<lambda>(x, y). if x0 < x \<and> x < x1 \<and> y0 < y \<and> y < y1 then Interior
               else if x0 \<le> x \<and> x \<le> x1 \<and> y0 \<le> y \<and> y \<le> y1 then Boundary
               else Exterior)"

text \<open>
  \<^verbatim>\<open>load_geographic_data\<close> returns the country polygon, the clipped union of the
  exclusion layers, the coordinates of the sensitive sites and the buffer distance. The
  first three come from data files; the fourth is the literal \<^verbatim>\<open>0.0001\<close>.
\<close>

record geo =
  sri_lanka_polygon :: geometry
  exclusion_clipped :: geometry
  sensitive_coords :: "point list"

definition buffer_distance :: real where
  "buffer_distance = 1 / 10000"

subsection \<open>Doubles\<close>

text \<open>
  Rounding a real number to the nearest double: the binade of \<open>x\<close> is the exponent \<open>e\<close>
  with \<open>2^e \<le> |x| < 2^(e+1)\<close>, not below the exponent \<open>-1022\<close> of the subnormal
  numbers; doubles in this binade are the multiples of \<open>2^(e-52)\<close>, and \<open>x\<close> goes to the
  nearest multiple, to the even one when two are equally near.
\<close>

definition round_half_even :: "real \<Rightarrow> int" where
  "round_half_even t =
     (let f = \<lfloor>t\<rfloor>; d = t - real_of_int f
      in if d < 1 / 2 then f else if 1 / 2 < d then f + 1 else if even f then f else f + 1)"

definition binade :: "real \<Rightarrow> int" where
  "binade x = max \<lfloor>log 2 \<bar>x\<bar>\<rfloor> (- 1022)"

definition rnd :: "real \<Rightarrow> real" where
  "rnd x = (if x = 0 then 0
            else real_of_int (round_half_even (x / 2 powi (binade x - 52)))
                   * 2 powi (binade x - 52))"

text \<open>
  The value of a numpy double: a finite number, an infinity or \<^verbatim>\<open>nan\<close>. An exact result
  at or beyond \<open>2^1024 - 2^970\<close>, half a step above the largest double, is delivered as
  an infinity.
\<close>

datatype float64 = Finite real | PosInf | NegInf | NaN

definition overflow_threshold :: real where
  "overflow_threshold = 2 ^ 1024 - 2 ^ 970"

definition to_float64 :: "real \<Rightarrow> float64" where
  "to_float64 r = (if overflow_threshold \<le> r then PosInf
                   else if r \<le> - overflow_threshold then NegInf
                   else Finite r)"

fun f_neg :: "float64 \<Rightarrow> float64" where
  "f_neg (Finite a) = Finite (- a)"
| "f_neg PosInf = NegInf"
| "f_neg NegInf = PosInf"
| "f_neg NaN = NaN"

fun f_add :: "float64 \<Rightarrow> float64 \<Rightarrow> float64" where
  "f_add (Finite a) (Finite b) = to_float64 (a + b)"
| "f_add (Finite a) PosInf = PosInf"
| "f_add (Finite a) NegInf = NegInf"
| "f_add PosInf (Finite b) = PosInf"
| "f_add PosInf PosInf = PosInf"
| "f_add PosInf NegInf = NaN"
| "f_add NegInf (Finite b) = NegInf"
| "f_add NegInf PosInf = NaN"
| "f_add NegInf NegInf = NegInf"
| "f_add NaN v = NaN"
| "f_add v NaN = NaN"

definition f_sub :: "float64 \<Rightarrow> float64 \<Rightarrow> float64" where
  "f_sub u v = f_add u (f_neg v)"

fun f_mul :: "float64 \<Rightarrow> float64 \<Rightarrow> float64" where
  "f_mul (Finite a) (Finite b) = to_float64 (a * b)"
| "f_mul (Finite a) PosInf = (if a = 0 then NaN else if 0 < a then PosInf else NegInf)"
| "f_mul (Finite a) NegInf = (if a = 0 then NaN else if 0 < a then NegInf else PosInf)"
| "f_mul PosInf (Finite b) = (if b = 0 then NaN else if 0 < b then PosInf else NegInf)"
| "f_mul NegInf (Finite b) = (if b = 0 then NaN else if 0 < b then NegInf else PosInf)"
| "f_mul PosInf PosInf = PosInf"
| "f_mul PosInf NegInf = NegInf"
| "f_mul NegInf PosInf = NegInf"
| "f_mul NegInf NegInf = PosInf"
| "f_mul NaN v = NaN"
| "f_mul v NaN = NaN"

text \<open>\<^verbatim>\<open>v**2\<close> on a numpy double is the product of \<open>v\<close> with itself.\<close>

definition f_sq :: "float64 \<Rightarrow> float64" where
  "f_sq v = f_mul v v"

fun f_sqrt :: "float64 \<Rightarrow> float64" where
  "f_sqrt (Finite a) = (if a < 0 then NaN else Finite (sqrt a))"
| "f_sqrt PosInf = PosInf"
| "f_sqrt NegInf = NaN"
| "f_sqrt NaN = NaN"


text \<open>A double that is not below zero: a non-negative number, \<^verbatim>\<open>+inf\<close> or \<^verbatim>\<open>nan\<close>.\<close>

fun not_negative :: "float64 \<Rightarrow> bool" where
  "not_negative (Finite r) = (0 \<le> r)"
| "not_negative PosInf = True"
| "not_negative NegInf = False"
| "not_negative NaN = True"

subsection \<open>Demand sites\<close>

text \<open>One dictionary of \<^verbatim>\<open>zone_data\<close>, as the input form appends it.\<close>

record zone =
  Zone_Name :: string
  Longitude :: real
  Latitude :: real
  Waste_Quantity :: real

text \<open>A row of the data frame after \<^verbatim>\<open>df['Q'] = df['Waste Quantity'] / 1000\<close>.\<close>

record zone_row = zone +
  Q :: real

definition add_Q :: "zone \<Rightarrow> zone_row" where
  "add_Q z = \<lparr>Zone_Name = Zone_Name z, Longitude = Longitude z, Latitude = Latitude z,
              Waste_Quantity = Waste_Quantity z, Q = Waste_Quantity z / 1000\<rparr>"

definition data_frame :: "zone list \<Rightarrow> zone_row list" where
  "data_frame zone_data = map add_Q zone_data"

subsection \<open>Feasibility\<close>

definition inside_sri_lanka :: "geo \<Rightarrow> real \<Rightarrow> real \<Rightarrow> bool" where
  "inside_sri_lanka g x y = contains (sri_lanka_polygon g) (x, y)"

definition outside_exclusion :: "geo \<Rightarrow> real \<Rightarrow> real \<Rightarrow> bool" where
  "outside_exclusion g x y = (\<not> contains (exclusion_clipped g) (x, y))"

text \<open>The loop of \<^verbatim>\<open>respect_buffer\<close> over the sensitive coordinates, with its early return.\<close>

fun buffer_loop :: "point list \<Rightarrow> real \<Rightarrow> real \<Rightarrow> bool" where
  "buffer_loop [] x y = True"
| "buffer_loop ((xf, yf) # rest) x y =
     (if sqrt ((x - xf)\<^sup>2 + (y - yf)\<^sup>2) < buffer_distance then False
      else buffer_loop rest x y)"

definition respect_buffer :: "geo \<Rightarrow> real \<Rightarrow> real \<Rightarrow> bool" where
  "respect_buffer g x y = buffer_loop (sensitive_coords g) x y"

fun is_feasible :: "geo \<Rightarrow> point \<Rightarrow> bool" where
  "is_feasible g (x, y) =
     (inside_sri_lanka g x y \<and> outside_exclusion g x y \<and> respect_buffer g x y)"

subsection \<open>Objective function\<close>

definition vehicle_capacity :: real where
  "vehicle_capacity = 5 / 1000"

definition cost_per_km :: real where
  "cost_per_km = 20 / 1000"

text \<open>
  The loop over the rows of the data frame, \<^verbatim>\<open>total_cost\<close> as the accumulator. The
  argument of \<^verbatim>\<open>np.ceil\<close> is the double quotient of two doubles: the stored \<^verbatim>\<open>Q\<close>, the
  double of \<^verbatim>\<open>waste / 1000\<close>, and \<^verbatim>\<open>vehicle_capacity\<close>, the double of \<^verbatim>\<open>5 / 1000\<close>.
  A double that is an integer after \<^verbatim>\<open>np.ceil\<close> needs no further rounding.
\<close>

fun objective_loop :: "zone_row list \<Rightarrow> real \<Rightarrow> real \<Rightarrow> float64 \<Rightarrow> float64" where
  "objective_loop [] x y total_cost = total_cost"
| "objective_loop (row # rows) x y total_cost =
     (let xi = Longitude row; yi = Latitude row; Qi = Q row;
          ni = real_of_int \<lceil>rnd (rnd Qi / rnd vehicle_capacity)\<rceil>;
          ti = f_sqrt (f_add (f_sq (f_sub (Finite xi) (Finite x)))
                             (f_sq (f_sub (Finite yi) (Finite y))))
      in objective_loop rows x y
           (f_add total_cost (f_mul (f_mul (Finite cost_per_km) (Finite ni)) ti)))"

fun objective :: "geo \<Rightarrow> zone_row list \<Rightarrow> point \<Rightarrow> float64" where
  "objective g df (x, y) =
     (if \<not> is_feasible g (x, y) then Finite 1000000000
      else objective_loop df x y (Finite 0))"

subsection \<open>Calling the solver\<close>















subsection \<open>Concrete data\<close>

text \<open>
  A square country, a square excluded area inside it and one sensitive site; and the same
  country with nothing excluded.
\<close>

definition demo_geo :: geo where
  "demo_geo = \<lparr>sri_lanka_polygon = box_geometry 0 0 10 10,
               exclusion_clipped = box_geometry 6 6 8 8,
               sensitive_coords = [(1, 1)]\<rparr>"

definition open_geo :: geo where
  "open_geo = \<lparr>sri_lanka_polygon = box_geometry 0 0 10 10,
               exclusion_clipped = empty_geometry,
               sensitive_coords = []\<rparr>"

definition site_a :: zone where
  "site_a = \<lparr>Zone_Name = ''Zone 1'', Longitude = 3, Latitude = 4, Waste_Quantity = 12\<rparr>"

definition site_b :: zone where
  "site_b = \<lparr>Zone_Name = ''Zone 2'', Longitude = 7, Latitude = 7, Waste_Quantity = 2000\<rparr>"

text \<open>
  A site with 35 tons a day, and two sites at a longitude of \<open>2^700\<close> (about
  \<open>5.26e210\<close>), a double that the input form accepts: one with 35 tons and one with no
  waste.
\<close>

definition site_c :: zone where
  "site_c = \<lparr>Zone_Name = ''Zone 3'', Longitude = 3, Latitude = 4, Waste_Quantity = 35\<rparr>"

definition site_far :: zone where
  "site_far = \<lparr>Zone_Name = ''Zone 4'', Longitude = 2 ^ 700, Latitude = 4,
                Waste_Quantity = 35\<rparr>"

definition site_far_idle :: zone where
  "site_far_idle = \<lparr>Zone_Name = ''Zone 5'', Longitude = 2 ^ 700, Latitude = 4,
                     Waste_Quantity = 0\<rparr>"


section \<open>Properties\<close>

subsection \<open>Rounding to the nearest double\<close>

lemma round_half_even_nonneg: "0 \<le> t \<Longrightarrow> 0 \<le> round_half_even t"
  by (simp add: round_half_even_def Let_def)

lemma round_half_even_le: "real_of_int (round_half_even t) \<le> t + 1 / 2"
  unfolding round_half_even_def Let_def by (simp; linarith)

lemma rnd_nonneg: "0 \<le> x \<Longrightarrow> 0 \<le> rnd x"
  by (simp add: rnd_def round_half_even_nonneg)

lemma binade_eq:
  assumes "2 powi e \<le> \<bar>x\<bar>" and "\<bar>x\<bar> < 2 powi (e + 1)" and "- 1022 \<le> e"
  shows "binade x = e"
proof -
  have pos: "0 < \<bar>x\<bar>"
    using assms(1) by (smt (verit) zero_less_power_int)
  have "(2::real) powr real_of_int e = 2 powi e"
    and "(2::real) powr real_of_int (e + 1) = 2 powi (e + 1)"
    by (rule powr_real_of_int'; simp)+
  then have "2 powr real_of_int e \<le> \<bar>x\<bar> \<and> \<bar>x\<bar> < 2 powr real_of_int (e + 1)"
    using assms(1,2) by (simp only:)
  then have "\<lfloor>log 2 \<bar>x\<bar>\<rfloor> = e"
    using pos floor_log_eq_powr_iff[of "\<bar>x\<bar>" 2 e] by (simp del: of_int_add)
  then show ?thesis
    using assms(3) by (simp add: binade_def)
qed

lemma rnd_eval:
  assumes "2 powi e \<le> \<bar>x\<bar>" and "\<bar>x\<bar> < 2 powi (e + 1)" and "- 1022 \<le> e"
    and "round_half_even (x / 2 powi (e - 52)) = m"
  shows "rnd x = real_of_int m * 2 powi (e - 52)"
proof -
  have "x \<noteq> 0"
    using assms(1) by (smt (verit) zero_less_power_int)
  then show ?thesis
    using binade_eq[OF assms(1-3)] assms(4) by (simp add: rnd_def)
qed

lemma rnd_35: "rnd (35 / 1000) = 5044031582654956 / 2 ^ 57"
  using rnd_eval[of "-5" "35 / 1000" 5044031582654956]
  by (simp add: round_half_even_def Let_def power_int_minus field_simps)

lemma rnd_5: "rnd (5 / 1000) = 5764607523034235 / 2 ^ 60"
  using rnd_eval[of "-8" "5 / 1000" 5764607523034235]
  by (simp add: round_half_even_def Let_def power_int_minus field_simps)

lemma rnd_quot_35:
  "rnd (rnd (35 / 1000) / rnd (5 / 1000)) = 7881299347898369 / 2 ^ 50"
proof -
  have q: "(5044031582654956 / 2 ^ 57) / (5764607523034235 / 2 ^ 60)
             = (40352252661239648 / 5764607523034235 :: real)"
    by simp
  show ?thesis
    unfolding rnd_35 rnd_5 q
    using rnd_eval[of 2 "40352252661239648 / 5764607523034235" 7881299347898369]
    by (simp add: round_half_even_def Let_def power_int_minus field_simps)
qed

lemma trips_35: "\<lceil>rnd (rnd (35 / 1000) / rnd (5 / 1000))\<rceil> = 8"
  unfolding rnd_quot_35 by (simp add: ceiling_eq_iff)

lemma quantum_le:
  assumes "0 < x"
  shows "2 powi (binade x - 52) \<le> x + 1"
proof (cases "- 1022 \<le> \<lfloor>log 2 x\<rfloor>")
  case True
  then have b: "binade x = \<lfloor>log 2 x\<rfloor>"
    using assms by (simp add: binade_def)
  have "(2::real) powi \<lfloor>log 2 x\<rfloor> = 2 powr real_of_int \<lfloor>log 2 x\<rfloor>"
    by (rule powr_real_of_int'[symmetric]; simp)
  also have "\<dots> \<le> 2 powr log 2 x"
    by (rule powr_mono) simp_all
  also have "\<dots> = x"
    using assms by simp
  finally have le: "(2::real) powi \<lfloor>log 2 x\<rfloor> \<le> x" .
  have "(2::real) powi (binade x - 52) \<le> 2 powi binade x"
    by (rule power_int_increasing) simp_all
  then show ?thesis
    using le b by simp
next
  case False
  then have b: "binade x = - 1022"
    using assms by (simp add: binade_def)
  have "(2::real) powi (- 1022 - 52) \<le> 2 powi 0"
    by (rule power_int_increasing) simp_all
  then show ?thesis
    using assms b by simp
qed

lemma rnd_le:
  assumes "0 \<le> x"
  shows "rnd x \<le> 2 * x + 1"
proof (cases "x = 0")
  case True
  then show ?thesis by (simp add: rnd_def)
next
  case False
  then have pos: "0 < x" using assms by simp
  define q where "q = (2::real) powi (binade x - 52)"
  have q0: "0 < q" by (simp add: q_def)
  have "rnd x = real_of_int (round_half_even (x / q)) * q"
    using False by (simp add: rnd_def q_def)
  also have "\<dots> \<le> (x / q + 1 / 2) * q"
    using round_half_even_le[of "x / q"] q0 by (intro mult_right_mono) simp_all
  also have "\<dots> = x + q / 2"
    using q0 by (simp add: field_simps)
  also have "\<dots> \<le> x + (x + 1) / 2"
    using quantum_le[OF pos] by (simp add: q_def)
  finally show ?thesis
    using pos by (simp add: field_simps)
qed

lemma rnd_vehicle_capacity: "rnd vehicle_capacity = 5764607523034235 / 2 ^ 60"
  unfolding vehicle_capacity_def by (rule rnd_5)

lemma trips_le:
  assumes "0 \<le> q" and "q \<le> B" and "1 \<le> B"
  shows "real_of_int \<lceil>rnd (rnd q / rnd vehicle_capacity)\<rceil> \<le> 2000 * B"
proof -
  define d where "d = rnd q / rnd vehicle_capacity"
  have r0: "0 \<le> rnd q" using assms(1) by (rule rnd_nonneg)
  have r1: "rnd q \<le> 2 * B + 1" using rnd_le[OF assms(1)] assms(2) by linarith
  have "d = rnd q * (2 ^ 60 / 5764607523034235)"
    unfolding d_def rnd_vehicle_capacity by simp
  also have "\<dots> \<le> rnd q * 256"
    using r0 by (intro mult_left_mono) simp_all
  finally have d1: "d \<le> 256 * (2 * B + 1)"
    using r1 by argo
  have d0: "0 \<le> d"
    using r0 unfolding d_def rnd_vehicle_capacity by simp
  have "rnd d \<le> 2 * d + 1"
    by (rule rnd_le[OF d0])
  then have "rnd d \<le> 512 * (2 * B + 1) + 1"
    using d1 by argo
  moreover have "real_of_int \<lceil>rnd d\<rceil> \<le> rnd d + 1"
    by linarith
  ultimately have "real_of_int \<lceil>rnd d\<rceil> \<le> 2000 * B"
    using assms(3) by argo
  then show ?thesis
    by (simp only: d_def)
qed

subsection \<open>Overflow and the operations on doubles\<close>

lemma overflow_threshold_large: "10 ^ 300 < overflow_threshold"
  by (simp add: overflow_threshold_def)

lemma to_float64_in_range:
  assumes "\<bar>r\<bar> \<le> 10 ^ 300"
  shows "to_float64 r = Finite r"
proof -
  have "r < overflow_threshold" and "- overflow_threshold < r"
    using assms overflow_threshold_large by linarith+
  then show ?thesis
    by (simp only: to_float64_def not_le[symmetric] if_False)
qed

lemma overflow_threshold_ge_1: "1 \<le> overflow_threshold"
  using overflow_threshold_large by (smt (verit) one_le_power)

lemma square_ge_threshold:
  assumes "overflow_threshold \<le> \<bar>u\<bar>"
  shows "overflow_threshold \<le> u\<^sup>2"
proof -
  have "1 \<le> \<bar>u\<bar>" using assms overflow_threshold_ge_1 by linarith
  then have "\<bar>u\<bar> * 1 \<le> \<bar>u\<bar> * \<bar>u\<bar>" by (intro mult_left_mono) simp_all
  then have "\<bar>u\<bar> \<le> u\<^sup>2" by (simp add: power2_eq_square)
  then show ?thesis using assms by linarith
qed

lemma sq_val:
  "f_sq (f_sub (Finite a) (Finite b)) =
     (if overflow_threshold \<le> (a - b)\<^sup>2 then PosInf else Finite ((a - b)\<^sup>2))"
proof -
  have T: "0 < overflow_threshold" using overflow_threshold_ge_1 by linarith
  have nn: "\<not> (a - b)\<^sup>2 \<le> - overflow_threshold"
    using T by (smt (verit) zero_le_power2)
  consider (hi) "overflow_threshold \<le> a - b" | (lo) "a - b \<le> - overflow_threshold"
    | (mid) "\<not> overflow_threshold \<le> a - b" "\<not> a - b \<le> - overflow_threshold"
    by blast
  then show ?thesis
  proof cases
    case hi
    then have "overflow_threshold \<le> (a - b)\<^sup>2"
      by (intro square_ge_threshold) linarith
    then show ?thesis using hi by (simp add: f_sq_def f_sub_def to_float64_def)
  next
    case lo
    then have "overflow_threshold \<le> (a - b)\<^sup>2"
      by (intro square_ge_threshold) linarith
    then show ?thesis using lo T by (simp add: f_sq_def f_sub_def to_float64_def)
  next
    case mid
    then show ?thesis
      using nn by (simp add: f_sq_def f_sub_def to_float64_def power2_eq_square)
  qed
qed

lemma distance_val:
  "f_sqrt (f_add (f_sq (f_sub (Finite a) (Finite b))) (f_sq (f_sub (Finite c) (Finite d)))) =
     (if overflow_threshold \<le> (a - b)\<^sup>2 + (c - d)\<^sup>2 then PosInf
      else Finite (sqrt ((a - b)\<^sup>2 + (c - d)\<^sup>2)))"
proof -
  have T: "0 < overflow_threshold" using overflow_threshold_ge_1 by linarith
  have u: "0 \<le> (a - b)\<^sup>2" and v: "0 \<le> (c - d)\<^sup>2" by simp_all
  show ?thesis
    unfolding sq_val using T u v
    by (auto simp add: to_float64_def not_le; linarith)
qed

lemma trips_nonneg:
  assumes "0 \<le> q"
  shows "0 \<le> real_of_int \<lceil>rnd (rnd q / rnd vehicle_capacity)\<rceil>"
proof -
  have "0 \<le> rnd q / rnd vehicle_capacity"
    using assms by (intro divide_nonneg_nonneg rnd_nonneg) (simp_all add: vehicle_capacity_def)
  then have "0 \<le> rnd (rnd q / rnd vehicle_capacity)" by (rule rnd_nonneg)
  then have "0 \<le> \<lceil>rnd (rnd q / rnd vehicle_capacity)\<rceil>" by linarith
  then show ?thesis by simp
qed

lemma single_site_cost:
  assumes "is_feasible g (x, y)"
  shows "objective g (data_frame [s]) (x, y) =
     f_add (Finite 0)
       (f_mul (to_float64 (cost_per_km
                 * real_of_int \<lceil>rnd (rnd (Waste_Quantity s / 1000) / rnd vehicle_capacity)\<rceil>))
              (if overflow_threshold \<le> (Longitude s - x)\<^sup>2 + (Latitude s - y)\<^sup>2 then PosInf
               else Finite (sqrt ((Longitude s - x)\<^sup>2 + (Latitude s - y)\<^sup>2))))"
  using assms by (simp add: data_frame_def add_Q_def Let_def distance_val del: is_feasible.simps)


lemma overflow_threshold_le: "overflow_threshold \<le> (2 ^ 512)\<^sup>2"
proof -
  have "(2::real) ^ 1024 = (2 ^ 512)\<^sup>2"
    by (simp only: power_mult[symmetric]) simp
  moreover have "(0::real) \<le> 2 ^ 970"
    by (rule zero_le_power) simp
  ultimately show ?thesis
    unfolding overflow_threshold_def by argo
qed

lemma far_overflow: "overflow_threshold \<le> (2 ^ 700 - 3)\<^sup>2 + v\<^sup>2"
proof -
  have "(2::real) ^ 512 \<le> 2 ^ 700 - 3" by simp
  then have "((2::real) ^ 512)\<^sup>2 \<le> (2 ^ 700 - 3)\<^sup>2"
    by (rule power_mono) simp
  moreover have "0 \<le> v\<^sup>2" by simp
  ultimately show ?thesis
    using overflow_threshold_le by linarith
qed

lemma not_negative_iff: "not_negative v \<longleftrightarrow> v \<noteq> NegInf \<and> (\<forall>r. v = Finite r \<longrightarrow> 0 \<le> r)"
  by (cases v) simp_all

lemma to_float64_not_negative: "0 \<le> r \<Longrightarrow> not_negative (to_float64 r)"
  using overflow_threshold_ge_1 by (simp add: to_float64_def)

lemma term_not_negative:
  assumes "0 \<le> k" and "0 \<le> S"
  shows "not_negative (f_mul (to_float64 k)
           (if overflow_threshold \<le> S then PosInf else Finite (sqrt S)))"
proof -
  have T: "0 < overflow_threshold" using overflow_threshold_ge_1 by linarith
  have p: "0 \<le> k * sqrt S" using assms by simp
  have "\<not> k * sqrt S \<le> - overflow_threshold" and "\<not> k \<le> - overflow_threshold"
    using T p assms(1) by linarith+
  then show ?thesis
    using assms by (simp add: to_float64_def)
qed

lemma add_not_negative: "not_negative u \<Longrightarrow> not_negative v \<Longrightarrow> not_negative (f_add u v)"
  by (cases u; cases v) (simp_all add: to_float64_not_negative)

lemma loop_step:
  "objective_loop (row # rows) x y acc =
     objective_loop rows x y
       (f_add acc
          (f_mul (to_float64 (cost_per_km
                    * real_of_int \<lceil>rnd (rnd (Q row) / rnd vehicle_capacity)\<rceil>))
                 (if overflow_threshold \<le> (Longitude row - x)\<^sup>2 + (Latitude row - y)\<^sup>2
                  then PosInf
                  else Finite (sqrt ((Longitude row - x)\<^sup>2 + (Latitude row - y)\<^sup>2)))))"
  by (simp add: Let_def distance_val)

lemma loop_not_negative:
  "not_negative acc \<Longrightarrow> \<forall>row\<in>set rows. 0 \<le> Q row \<Longrightarrow>
   not_negative (objective_loop rows x y acc)"
proof (induction rows arbitrary: acc)
  case Nil
  then show ?case by simp
next
  case (Cons row rows)
  have "0 \<le> cost_per_km * real_of_int \<lceil>rnd (rnd (Q row) / rnd vehicle_capacity)\<rceil>"
    using trips_nonneg[of "Q row"] Cons.prems(2) by (simp add: cost_per_km_def)
  then have "not_negative (f_mul (to_float64 (cost_per_km
                    * real_of_int \<lceil>rnd (rnd (Q row) / rnd vehicle_capacity)\<rceil>))
                 (if overflow_threshold \<le> (Longitude row - x)\<^sup>2 + (Latitude row - y)\<^sup>2
                  then PosInf
                  else Finite (sqrt ((Longitude row - x)\<^sup>2 + (Latitude row - y)\<^sup>2))))"
    by (rule term_not_negative) simp
  with Cons.prems(1) have "not_negative (f_add acc (f_mul (to_float64 (cost_per_km
                    * real_of_int \<lceil>rnd (rnd (Q row) / rnd vehicle_capacity)\<rceil>))
                 (if overflow_threshold \<le> (Longitude row - x)\<^sup>2 + (Latitude row - y)\<^sup>2
                  then PosInf
                  else Finite (sqrt ((Longitude row - x)\<^sup>2 + (Latitude row - y)\<^sup>2)))))"
    by (rule add_not_negative)
  then show ?case
    unfolding loop_step using Cons.prems(2) by (intro Cons.IH) simp_all
qed

lemma data_frame_Q:
  "\<forall>s\<in>set sites. 0 \<le> Waste_Quantity s \<Longrightarrow> \<forall>row\<in>set (data_frame sites). 0 \<le> Q row"
  by (auto simp add: data_frame_def add_Q_def)

lemma finite_term:
  assumes "\<bar>k\<bar> \<le> 10 ^ 300" and "S \<le> 10 ^ 300" and "\<bar>k * sqrt S\<bar> \<le> 10 ^ 300"
  shows "f_mul (to_float64 k) (if overflow_threshold \<le> S then PosInf else Finite (sqrt S))
         = Finite (k * sqrt S)"
proof -
  have "\<not> overflow_threshold \<le> S"
    using assms(2) overflow_threshold_large by linarith
  then show ?thesis
    by (simp add: to_float64_in_range[OF assms(1)] to_float64_in_range[OF assms(3)])
qed

lemma square_le:
  fixes u B :: real
  assumes "\<bar>a\<bar> \<le> B" and "\<bar>b\<bar> \<le> B"
  shows "(a - b)\<^sup>2 \<le> 4 * B\<^sup>2"
proof -
  have "\<bar>a - b\<bar> \<le> 2 * B" using assms by linarith
  then have "\<bar>a - b\<bar>\<^sup>2 \<le> (2 * B)\<^sup>2" by (rule power_mono) simp
  then show ?thesis by (simp add: power_mult_distrib)
qed

lemma row_term_bounded:
  fixes xi yi x y q :: real
  defines "k \<equiv> cost_per_km * real_of_int \<lceil>rnd (rnd q / rnd vehicle_capacity)\<rceil>"
    and "S \<equiv> (xi - x)\<^sup>2 + (yi - y)\<^sup>2"
  assumes "\<bar>xi\<bar> \<le> 10 ^ 100" and "\<bar>yi\<bar> \<le> 10 ^ 100" and "\<bar>x\<bar> \<le> 10 ^ 100"
    and "\<bar>y\<bar> \<le> 10 ^ 100" and "0 \<le> q" and "q \<le> 10 ^ 100"
  shows "f_mul (to_float64 k) (if overflow_threshold \<le> S then PosInf else Finite (sqrt S))
           = Finite (k * sqrt S) \<and> 0 \<le> k * sqrt S \<and> k * sqrt S \<le> 10 ^ 205"
proof -
  define B :: real where "B = 10 ^ 100"
  have B1: "1 \<le> B" unfolding B_def by (rule one_le_power) simp
  have B2: "B\<^sup>2 = 10 ^ 200" unfolding B_def by (simp only: power_mult[symmetric]) simp
  have k0: "0 \<le> k"
    unfolding k_def using trips_nonneg[OF assms(7)] by (simp add: cost_per_km_def)
  have "real_of_int \<lceil>rnd (rnd q / rnd vehicle_capacity)\<rceil> \<le> 2000 * B"
    using assms(7) assms(8) B1 unfolding B_def by (rule trips_le)
  then have k1: "k \<le> 40 * B"
    unfolding k_def cost_per_km_def by argo
  have b: "\<bar>xi\<bar> \<le> B" "\<bar>yi\<bar> \<le> B" "\<bar>x\<bar> \<le> B" "\<bar>y\<bar> \<le> B"
    unfolding B_def by (fact assms(3-6))+
  have "(xi - x)\<^sup>2 \<le> 4 * B\<^sup>2" and "(yi - y)\<^sup>2 \<le> 4 * B\<^sup>2"
    by (rule square_le[OF b(1) b(3)], rule square_le[OF b(2) b(4)])
  moreover have "0 \<le> B\<^sup>2" by simp
  ultimately have "S \<le> 9 * B\<^sup>2"
    unfolding S_def by argo
  then have S1: "S \<le> (3 * B)\<^sup>2"
    by (simp add: power_mult_distrib)
  have S0: "0 \<le> S" unfolding S_def by simp
  have B0: "0 \<le> 3 * B" using B1 by simp
  have r1: "sqrt S \<le> 3 * B"
    using B0 S1 by (rule real_le_lsqrt)
  have r0: "0 \<le> sqrt S" using S0 by simp
  have B40: "0 \<le> 40 * B" using B1 by simp
  have "k * sqrt S \<le> (40 * B) * (3 * B)"
    using k1 r1 B40 r0 by (rule mult_mono)
  also have "\<dots> = 120 * B\<^sup>2" by (simp add: power2_eq_square)
  also have "\<dots> \<le> 10 ^ 5 * B\<^sup>2" by (intro mult_right_mono) simp_all
  also have "\<dots> = 10 ^ 205" unfolding B2 by (simp only: power_add[symmetric]) simp
  finally have t1: "k * sqrt S \<le> 10 ^ 205" .
  have t0: "0 \<le> k * sqrt S" using k0 r0 by simp
  have up: "(10::real) ^ 205 \<le> 10 ^ 300" by (rule power_increasing) simp_all
  have "40 * B \<le> 10 ^ 2 * B" using B1 by simp
  also have "\<dots> = 10 ^ 102" unfolding B_def by (simp only: power_add[symmetric]) simp
  also have "\<dots> \<le> (10::real) ^ 300" by (rule power_increasing) simp_all
  finally have "k \<le> 10 ^ 300" using k1 by (rule order_trans[rotated])
  then have kb: "\<bar>k\<bar> \<le> 10 ^ 300" using k0 by (simp only: abs_of_nonneg)
  have "(3 * B)\<^sup>2 = 9 * B\<^sup>2" by (simp add: power_mult_distrib)
  also have "\<dots> \<le> 10 ^ 1 * B\<^sup>2" by (intro mult_right_mono) simp_all
  also have "\<dots> = 10 ^ 201" unfolding B2 by (simp only: power_add[symmetric]) simp
  also have "\<dots> \<le> (10::real) ^ 300" by (rule power_increasing) simp_all
  finally have Sb: "S \<le> 10 ^ 300" using S1 by (rule order_trans[rotated])
  have "k * sqrt S \<le> 10 ^ 300" using t1 up by (rule order_trans)
  then have tb: "\<bar>k * sqrt S\<bar> \<le> 10 ^ 300" using t0 by (simp only: abs_of_nonneg)
  show ?thesis
    using finite_term[OF kb Sb tb] t0 t1 by blast
qed

subsection \<open>Facts about the concrete data\<close>


lemma open_geo_feasible: "is_feasible open_geo (3, 7)"
  by (simp add: open_geo_def inside_sri_lanka_def outside_exclusion_def respect_buffer_def
      contains_def box_geometry_def empty_geometry_def)

lemma sqrt_of_square: "0 \<le> r \<Longrightarrow> r * r = s \<Longrightarrow> sqrt s = r"
  by (rule real_sqrt_unique) (simp_all add: power2_eq_square)

lemma site_c_trips:
  "real_of_int \<lceil>rnd (rnd (Waste_Quantity site_c / 1000) / rnd vehicle_capacity)\<rceil> = 8"
proof -
  show ?thesis
    using trips_35 by (simp add: site_c_def vehicle_capacity_def)
qed

lemma finite_cost:
  assumes "\<bar>k\<bar> \<le> 10 ^ 300" and "0 \<le> S" and "S \<le> 10 ^ 300" and "\<bar>k * sqrt S\<bar> \<le> 10 ^ 300"
  shows "f_add (Finite 0)
           (f_mul (to_float64 k) (if overflow_threshold \<le> S then PosInf else Finite (sqrt S)))
         = Finite (k * sqrt S)"
proof -
  have "\<not> overflow_threshold \<le> S"
    using assms(3) overflow_threshold_large by linarith
  then show ?thesis
    by (simp add: to_float64_in_range[OF assms(1)] to_float64_in_range[OF assms(4)])
qed

lemma objective_site_c_far: "objective open_geo (data_frame [site_c]) (3, 7) = Finite (48 / 100)"
proof -
  have s9: "sqrt 9 = 3" by (rule sqrt_of_square) simp_all
  have S: "(Longitude site_c - 3)\<^sup>2 + (Latitude site_c - 7)\<^sup>2 = 9"
    by (simp add: site_c_def)
  have "objective open_geo (data_frame [site_c]) (3, 7) = Finite (cost_per_km * 8 * sqrt 9)"
    unfolding single_site_cost[OF open_geo_feasible] site_c_trips S
    by (rule finite_cost) (simp_all add: cost_per_km_def s9)
  then show ?thesis
    by (simp add: s9 cost_per_km_def)
qed

lemma far_sites:
  "Longitude site_far = 2 ^ 700" "Latitude site_far = 4" "Waste_Quantity site_far = 35"
  "Longitude site_far_idle = 2 ^ 700" "Latitude site_far_idle = 4"
  "Waste_Quantity site_far_idle = 0"
  by (simp_all only: site_far_def site_far_idle_def zone.select_convs)

lemma objective_site_far_idle:
  assumes "is_feasible g (3, y)"
  shows "objective g (data_frame [site_far_idle]) (3, y) = NaN"
proof -
  have n: "real_of_int \<lceil>rnd (rnd (Waste_Quantity site_far_idle / 1000) / rnd vehicle_capacity)\<rceil> = 0"
    unfolding far_sites by (simp add: rnd_def)
  have S: "overflow_threshold \<le> (Longitude site_far_idle - 3)\<^sup>2 + (Latitude site_far_idle - y)\<^sup>2"
    unfolding far_sites by (rule far_overflow)
  have z: "to_float64 0 = Finite 0"
    by (rule to_float64_in_range) simp
  have m: "cost_per_km * 0 = 0" by simp
  show ?thesis
    unfolding single_site_cost[OF assms] n m z if_P[OF S] by simp
qed

lemma objective_site_far:
  assumes "is_feasible g (3, y)"
  shows "objective g (data_frame [site_far]) (3, y) = PosInf"
proof -
  have n: "real_of_int \<lceil>rnd (rnd (Waste_Quantity site_far / 1000) / rnd vehicle_capacity)\<rceil> = 8"
    unfolding far_sites using trips_35 by (simp add: vehicle_capacity_def)
  have S: "overflow_threshold \<le> (Longitude site_far - 3)\<^sup>2 + (Latitude site_far - y)\<^sup>2"
    unfolding far_sites by (rule far_overflow)
  have z: "to_float64 (cost_per_km * 8) = Finite (cost_per_km * 8)"
    by (rule to_float64_in_range) (simp add: cost_per_km_def)
  have p: "0 < cost_per_km * 8"
    by (simp add: cost_per_km_def)
  show ?thesis
    unfolding single_site_cost[OF assms] n z if_P[OF S] using p by simp
qed

subsection \<open>The cost of a feasible coordinate\<close>

text \<open>
  C1 says that at a feasible coordinate the cost is the sum over the sites of
  \<open>(20/1000) * ni * ti\<close> with \<open>ni = \<lceil>Qi / (5/1000)\<rceil>\<close>, \<open>Qi\<close> the daily waste divided by
  1000 and \<open>ti\<close> the distance. For one site with 35 tons a day at distance 3 that is
  \<open>0.02 * 7 * 3 = 0.42\<close>. The program forms the quotient in doubles, where it is
  \<^verbatim>\<open>7.000000000000001\<close>, takes the ceiling 8 and returns \<open>0.02 * 8 * 3 = 0.48\<close>: one
  trip more than the 35 tons need.
\<close>

theorem objective_overcounts_trips:
  "objective open_geo (data_frame [site_c]) (3, 7) = Finite (48 / 100) \<and>
   (20 / 1000) * real_of_int \<lceil>(Waste_Quantity site_c / 1000) / (5 / 1000)\<rceil>
     * sqrt ((Longitude site_c - 3)\<^sup>2 + (Latitude site_c - 7)\<^sup>2) = 42 / 100"
proof -
  have s9: "sqrt 9 = 3" by (rule sqrt_of_square) simp_all
  show ?thesis
    using objective_site_c_far by (simp add: site_c_def s9)
qed

subsection \<open>The penalty of an infeasible coordinate\<close>

text \<open>
  C2. At a coordinate that is not feasible the objective is the constant \<open>1e9\<close>, a finite
  number and not an infinity, whatever the data frame holds: two data frames give the
  same value.
\<close>

theorem objective_infeasible:
  "\<not> is_feasible g p \<Longrightarrow>
   objective g df p = Finite 1000000000 \<and> objective g df p = objective g df' p"
  by (cases p) simp

theorem objective_infeasible_witness:
  "\<not> is_feasible demo_geo (7, 7) \<and>
   objective demo_geo (data_frame [site_a]) (7, 7) = Finite 1000000000 \<and>
   objective demo_geo (data_frame [site_a]) (7, 7) =
     objective demo_geo (data_frame [site_b, site_a]) (7, 7)"
proof -
  have h: "\<not> is_feasible demo_geo (7, 7)"
    by (simp add: demo_geo_def outside_exclusion_def contains_def box_geometry_def)
  show ?thesis
    using h objective_infeasible[OF h, of "data_frame [site_a]" "data_frame [site_b, site_a]"]
    by simp
qed

subsection \<open>Feasibility is the conjunction of the three checks\<close>

lemma buffer_loop_iff:
  "buffer_loop fs x y \<longleftrightarrow>
     (\<forall>(xf, yf)\<in>set fs. \<not> sqrt ((x - xf)\<^sup>2 + (y - yf)\<^sup>2) < buffer_distance)"
  by (induction fs x y rule: buffer_loop.induct) auto

text \<open>
  C3. \<open>is_feasible\<close> holds exactly when the inside check, the exclusion check and the
  buffer check all pass, that is, exactly when the coordinate is in the interior of the
  allowed region, not in the interior of the excluded region, and at a distance not below
  the buffer distance from every sensitive coordinate. A point in the exterior of the
  allowed region is infeasible, and so is a point in the interior of the excluded region,
  also when it is inside the allowed region.
\<close>

theorem is_feasible_conjunction:
  "(is_feasible g (x, y) \<longleftrightarrow>
      inside_sri_lanka g x y \<and> outside_exclusion g x y \<and> respect_buffer g x y) \<and>
   (is_feasible g (x, y) \<longleftrightarrow>
      sri_lanka_polygon g (x, y) = Interior \<and> exclusion_clipped g (x, y) \<noteq> Interior \<and>
      (\<forall>(xf, yf)\<in>set (sensitive_coords g).
          \<not> sqrt ((x - xf)\<^sup>2 + (y - yf)\<^sup>2) < buffer_distance)) \<and>
   (sri_lanka_polygon g (x, y) = Exterior \<longrightarrow> \<not> is_feasible g (x, y)) \<and>
   (exclusion_clipped g (x, y) = Interior \<longrightarrow> \<not> is_feasible g (x, y))"
  by (simp add: inside_sri_lanka_def outside_exclusion_def contains_def respect_buffer_def
      buffer_loop_iff)

text \<open>
  In \<open>demo_geo\<close>: \<open>(5, 5)\<close> passes all three checks and is feasible; \<open>(11, 5)\<close> is outside
  the country; \<open>(7, 7)\<close> is inside the country and inside the excluded square; \<open>(1, 1)\<close>
  is inside the country and outside the excluded square, but on the sensitive site.
\<close>

theorem is_feasible_conjunction_witness:
  "sri_lanka_polygon demo_geo (5, 5) = Interior \<and> exclusion_clipped demo_geo (5, 5) = Exterior \<and>
   \<not> sqrt ((5 - 1)\<^sup>2 + (5 - 1)\<^sup>2) < buffer_distance \<and> is_feasible demo_geo (5, 5) \<and>
   sri_lanka_polygon demo_geo (11, 5) = Exterior \<and> \<not> is_feasible demo_geo (11, 5) \<and>
   exclusion_clipped demo_geo (7, 7) = Interior \<and> inside_sri_lanka demo_geo 7 7 \<and>
   \<not> is_feasible demo_geo (7, 7) \<and>
   inside_sri_lanka demo_geo 1 1 \<and> outside_exclusion demo_geo 1 1 \<and>
   sqrt ((1 - 1)\<^sup>2 + (1 - 1)\<^sup>2) < buffer_distance \<and> \<not> is_feasible demo_geo (1, 1)"
proof -
  have "1 / 10000 \<le> sqrt 32"
    by (rule real_le_rsqrt) (simp add: power2_eq_square)
  then have far: "\<not> sqrt ((5 - 1)\<^sup>2 + (5 - 1)\<^sup>2) < buffer_distance"
    by (simp add: buffer_distance_def)
  show ?thesis
    using far is_feasible_conjunction[of demo_geo 5 5] is_feasible_conjunction[of demo_geo 11 5]
      is_feasible_conjunction[of demo_geo 7 7] is_feasible_conjunction[of demo_geo 1 1]
    by (simp add: demo_geo_def box_geometry_def inside_sri_lanka_def outside_exclusion_def
        contains_def buffer_distance_def)
qed

subsection \<open>The inside check on the boundary\<close>

text \<open>
  C4, as stated: a coordinate exactly on the boundary of the allowed region is accepted by
  the inside check. The point \<open>(0, 5)\<close> lies on the left edge of the square country and
  \<open>contains\<close> rejects it.
\<close>

theorem inside_boundary_counterexample:
  "sri_lanka_polygon demo_geo (0, 5) = Boundary \<and> \<not> inside_sri_lanka demo_geo 0 5"
  by (simp add: demo_geo_def box_geometry_def inside_sri_lanka_def contains_def)

text \<open>
  C4, amended: the inside check is boundary-exclusive. It accepts exactly the coordinates
  in the interior of the allowed region, and rejects every coordinate on its boundary.
\<close>

theorem inside_is_interior:
  "(inside_sri_lanka g x y \<longleftrightarrow> sri_lanka_polygon g (x, y) = Interior) \<and>
   (sri_lanka_polygon g (x, y) = Boundary \<longrightarrow> \<not> inside_sri_lanka g x y)"
  by (simp add: inside_sri_lanka_def contains_def)

theorem inside_is_interior_witness:
  "sri_lanka_polygon demo_geo (10, 10) = Boundary \<and> \<not> inside_sri_lanka demo_geo 10 10 \<and>
   sri_lanka_polygon demo_geo (5, 5) = Interior \<and> inside_sri_lanka demo_geo 5 5"
  using inside_is_interior[of demo_geo 10 10] inside_is_interior[of demo_geo 5 5]
  by (simp add: demo_geo_def box_geometry_def)

subsection \<open>The buffer check\<close>

text \<open>
  C5. The buffer check fails exactly when some sensitive coordinate is at a Euclidean
  distance strictly below the buffer distance; for a single sensitive coordinate \<open>f\<close> it
  passes exactly when the distance to \<open>f\<close> is not below the buffer distance. A coordinate
  at exactly the buffer distance from every sensitive coordinate passes.
\<close>

theorem respect_buffer_strict:
  "(\<not> respect_buffer g x y \<longleftrightarrow>
      (\<exists>(xf, yf)\<in>set (sensitive_coords g).
          sqrt ((x - xf)\<^sup>2 + (y - yf)\<^sup>2) < buffer_distance)) \<and>
   (respect_buffer (g\<lparr>sensitive_coords := [(xf, yf)]\<rparr>) x y \<longleftrightarrow>
      \<not> sqrt ((x - xf)\<^sup>2 + (y - yf)\<^sup>2) < buffer_distance) \<and>
   ((\<forall>(xf, yf)\<in>set (sensitive_coords g).
        sqrt ((x - xf)\<^sup>2 + (y - yf)\<^sup>2) = buffer_distance)
      \<longrightarrow> respect_buffer g x y)"
  by (auto simp add: respect_buffer_def buffer_loop_iff)

text \<open>
  The sensitive site of \<open>demo_geo\<close> is at \<open>(1, 1)\<close>: the coordinate \<open>(1.0001, 1)\<close> is at
  exactly the buffer distance and passes, the coordinate \<open>(1, 1)\<close> is at distance 0 and
  fails.
\<close>

theorem respect_buffer_strict_witness:
  "sqrt ((1 + 1 / 10000 - 1)\<^sup>2 + (1 - 1)\<^sup>2) = buffer_distance \<and>
   respect_buffer demo_geo (1 + 1 / 10000) 1 \<and>
   sqrt ((1 - 1)\<^sup>2 + (1 - 1)\<^sup>2) < buffer_distance \<and>
   \<not> respect_buffer demo_geo 1 1"
proof -
  have d: "sqrt ((1 + 1 / 10000 - 1)\<^sup>2 + (1 - 1)\<^sup>2) = buffer_distance"
    by (simp add: buffer_distance_def real_sqrt_divide sqrt_of_square)
  show ?thesis
    using d respect_buffer_strict[of demo_geo "1 + 1 / 10000" 1]
      respect_buffer_strict[of demo_geo 1 1]
    by (simp add: demo_geo_def buffer_distance_def)
qed

subsection \<open>The outcome of the optimization block\<close>






subsection \<open>Monotonicity in the distance\<close>




subsection \<open>Empty exclusion data\<close>

text \<open>
  C8. With an empty excluded region every coordinate passes the exclusion check, and with
  no sensitive coordinates every coordinate passes the buffer check.
\<close>

theorem empty_checks_pass:
  "outside_exclusion (g\<lparr>exclusion_clipped := empty_geometry\<rparr>) x y \<and>
   respect_buffer (g\<lparr>sensitive_coords := []\<rparr>) x y"
  by (simp add: outside_exclusion_def contains_def empty_geometry_def respect_buffer_def)

subsection \<open>The boundary of the excluded region\<close>

text \<open>
  C9. A coordinate exactly on the boundary of the excluded region passes the exclusion
  check, since \<open>contains\<close> holds for interior points only; it is feasible whenever it
  also lies in the interior of the allowed region and passes the buffer check.
\<close>

theorem exclusion_boundary_passes:
  "exclusion_clipped g (x, y) = Boundary \<Longrightarrow>
   outside_exclusion g x y \<and>
   (sri_lanka_polygon g (x, y) = Interior \<and> respect_buffer g x y \<longrightarrow> is_feasible g (x, y))"
  by (simp add: outside_exclusion_def inside_sri_lanka_def contains_def)

text \<open>
  \<open>(6, 7)\<close> is on the left edge of the excluded square, inside the country, and at
  distance \<open>sqrt 61\<close> from the sensitive site.
\<close>

theorem exclusion_boundary_passes_witness:
  "exclusion_clipped demo_geo (6, 7) = Boundary \<and> outside_exclusion demo_geo 6 7 \<and>
   sri_lanka_polygon demo_geo (6, 7) = Interior \<and> respect_buffer demo_geo 6 7 \<and>
   is_feasible demo_geo (6, 7)"
proof -
  have b: "exclusion_clipped demo_geo (6, 7) = Boundary"
    by (simp add: demo_geo_def box_geometry_def)
  have i: "sqrt 61 \<ge> 1 / 10000"
    by (rule real_le_rsqrt) (simp add: power2_eq_square)
  have r: "respect_buffer demo_geo 6 7"
    using i by (simp add: respect_buffer_def demo_geo_def buffer_distance_def)
  show ?thesis
    using exclusion_boundary_passes[OF b] b r
    by (simp add: demo_geo_def box_geometry_def)
qed

subsection \<open>The range of the objective\<close>

lemma loop_finite:
  assumes "\<bar>x\<bar> \<le> 10 ^ 100" and "\<bar>y\<bar> \<le> 10 ^ 100"
  shows "\<forall>row\<in>set rows. \<bar>Longitude row\<bar> \<le> 10 ^ 100 \<and> \<bar>Latitude row\<bar> \<le> 10 ^ 100
                         \<and> 0 \<le> Q row \<and> Q row \<le> 10 ^ 100 \<Longrightarrow>
         0 \<le> a \<Longrightarrow> a + real (length rows) * 10 ^ 205 \<le> 10 ^ 300 \<Longrightarrow>
         \<exists>r. objective_loop rows x y (Finite a) = Finite r \<and> 0 \<le> r"
proof (induction rows arbitrary: a)
  case Nil
  then show ?case by simp
next
  case (Cons row rows)
  define M :: real where "M = 10 ^ 205"
  define L :: real where "L = 10 ^ 300"
  define v where "v = cost_per_km * real_of_int \<lceil>rnd (rnd (Q row) / rnd vehicle_capacity)\<rceil>
                        * sqrt ((Longitude row - x)\<^sup>2 + (Latitude row - y)\<^sup>2)"
  have M0: "0 \<le> M" unfolding M_def by simp
  have row: "\<bar>Longitude row\<bar> \<le> 10 ^ 100" "\<bar>Latitude row\<bar> \<le> 10 ^ 100"
    "0 \<le> Q row" "Q row \<le> 10 ^ 100"
    using Cons.prems(1) by simp_all
  have t: "f_mul (to_float64 (cost_per_km
                    * real_of_int \<lceil>rnd (rnd (Q row) / rnd vehicle_capacity)\<rceil>))
                 (if overflow_threshold \<le> (Longitude row - x)\<^sup>2 + (Latitude row - y)\<^sup>2
                  then PosInf
                  else Finite (sqrt ((Longitude row - x)\<^sup>2 + (Latitude row - y)\<^sup>2)))
             = Finite v"
    and v0: "0 \<le> v" and v1: "v \<le> M"
    using row_term_bounded[OF row(1,2) assms row(3,4)] unfolding v_def M_def by blast+
  have n0: "0 \<le> real (length rows) * M" using M0 by simp
  have "a + real (length (row # rows)) * M \<le> L"
    using Cons.prems(3) unfolding M_def L_def .
  then have pre: "a + M + real (length rows) * M \<le> L"
    by (simp add: algebra_simps)
  have av0: "0 \<le> a + v" using Cons.prems(2) v0 by simp
  have "a + v \<le> L" using pre v1 n0 by linarith
  then have "\<bar>a + v\<bar> \<le> 10 ^ 300" using av0 unfolding L_def by (simp only: abs_of_nonneg)
  then have s: "f_add (Finite a) (Finite v) = Finite (a + v)"
    by (simp only: f_add.simps to_float64_in_range)
  have "a + v + real (length rows) * M \<le> L" using pre v1 by linarith
  then have nxt: "a + v + real (length rows) * 10 ^ 205 \<le> 10 ^ 300"
    unfolding M_def L_def .
  have rest: "\<forall>row\<in>set rows. \<bar>Longitude row\<bar> \<le> 10 ^ 100 \<and> \<bar>Latitude row\<bar> \<le> 10 ^ 100
                         \<and> 0 \<le> Q row \<and> Q row \<le> 10 ^ 100"
    using Cons.prems(1) by simp
  show ?case
    unfolding loop_step t s using Cons.IH[OF rest av0 nxt] .
qed

lemma data_frame_bounds:
  assumes "\<forall>s\<in>set sites. 0 \<le> Waste_Quantity s"
    and "\<forall>s\<in>set sites. \<bar>Longitude s\<bar> \<le> 10 ^ 100 \<and> \<bar>Latitude s\<bar> \<le> 10 ^ 100
                          \<and> Waste_Quantity s \<le> 10 ^ 100"
  shows "\<forall>row\<in>set (data_frame sites). \<bar>Longitude row\<bar> \<le> 10 ^ 100
            \<and> \<bar>Latitude row\<bar> \<le> 10 ^ 100 \<and> 0 \<le> Q row \<and> Q row \<le> 10 ^ 100"
proof
  fix row
  assume "row \<in> set (data_frame sites)"
  then obtain s where s: "s \<in> set sites" and r: "row = add_Q s"
    by (auto simp add: data_frame_def)
  have w0: "0 \<le> Waste_Quantity s" using assms(1) s by blast
  have b: "\<bar>Longitude s\<bar> \<le> 10 ^ 100" "\<bar>Latitude s\<bar> \<le> 10 ^ 100" "Waste_Quantity s \<le> 10 ^ 100"
    using assms(2) s by blast+
  have "Waste_Quantity s / 1000 \<le> Waste_Quantity s" using w0 by simp
  then have "Waste_Quantity s / 1000 \<le> 10 ^ 100" using b(3) by (rule order_trans)
  moreover have "0 \<le> Waste_Quantity s / 1000" using w0 by simp
  ultimately show "\<bar>Longitude row\<bar> \<le> 10 ^ 100 \<and> \<bar>Latitude row\<bar> \<le> 10 ^ 100
                     \<and> 0 \<le> Q row \<and> Q row \<le> 10 ^ 100"
    using b(1,2) unfolding r add_Q_def by (simp only: zone.select_convs zone_row.select_convs)
qed

lemma twenty_rows:
  assumes "length sites \<le> 20"
  shows "0 + real (length (data_frame sites)) * 10 ^ 205 \<le> 10 ^ 300"
proof -
  have "real (length (data_frame sites)) \<le> 20"
    using assms by (simp add: data_frame_def)
  then have "real (length (data_frame sites)) * 10 ^ 205 \<le> 20 * 10 ^ 205"
    by (intro mult_right_mono) simp_all
  also have "\<dots> \<le> 10 ^ 2 * 10 ^ 205" by (intro mult_right_mono) simp_all
  also have "\<dots> = (10::real) ^ 207" by (simp only: power_add[symmetric]) simp
  also have "\<dots> \<le> (10::real) ^ 300" by (rule power_increasing) simp_all
  finally show ?thesis by simp
qed

text \<open>
  C10, as stated: with non-negative waste quantities the cost is a finite non-negative
  number at every coordinate. With a site at a longitude of \<open>2^700\<close> the squared
  distance overflows: the cost is \<^verbatim>\<open>inf\<close> when the site has waste and \<^verbatim>\<open>nan\<close> when it
  has none.
\<close>

theorem overflow_counterexample:
  "0 \<le> Waste_Quantity site_far \<and>
   objective open_geo (data_frame [site_far]) (3, 7) = PosInf \<and>
   0 \<le> Waste_Quantity site_far_idle \<and>
   objective open_geo (data_frame [site_far_idle]) (3, 7) = NaN"
  using objective_site_far[OF open_geo_feasible] objective_site_far_idle[OF open_geo_feasible]
  by (simp only: far_sites) simp

text \<open>
  C10, amended: with non-negative waste quantities the cost is never a negative number
  and never \<^verbatim>\<open>-inf\<close>; it is a finite non-negative number whenever there are at most 20
  sites (the form's maximum) and the coordinates of the sites and of the candidate and the
  waste quantities are at most \<open>10^100\<close> in magnitude; and at a feasible coordinate with
  no sites it is exactly 0.
\<close>

theorem objective_range:
  assumes "\<forall>s\<in>set sites. 0 \<le> Waste_Quantity s"
  shows "objective g (data_frame sites) (x, y) \<noteq> NegInf \<and>
         (\<forall>r. objective g (data_frame sites) (x, y) = Finite r \<longrightarrow> 0 \<le> r) \<and>
         (length sites \<le> 20 \<and> \<bar>x\<bar> \<le> 10 ^ 100 \<and> \<bar>y\<bar> \<le> 10 ^ 100 \<and>
          (\<forall>s\<in>set sites. \<bar>Longitude s\<bar> \<le> 10 ^ 100 \<and> \<bar>Latitude s\<bar> \<le> 10 ^ 100
                            \<and> Waste_Quantity s \<le> 10 ^ 100)
            \<longrightarrow> (\<exists>r. objective g (data_frame sites) (x, y) = Finite r \<and> 0 \<le> r)) \<and>
         (is_feasible g (x, y) \<longrightarrow> objective g (data_frame []) (x, y) = Finite 0)"
proof -
  have "not_negative (objective_loop (data_frame sites) x y (Finite 0))"
    by (rule loop_not_negative[OF _ data_frame_Q[OF assms]]) simp
  then have nn: "not_negative (objective g (data_frame sites) (x, y))"
    by (simp del: is_feasible.simps)
  have fin: "\<exists>r. objective g (data_frame sites) (x, y) = Finite r \<and> 0 \<le> r"
    if "length sites \<le> 20" and "\<bar>x\<bar> \<le> 10 ^ 100" and "\<bar>y\<bar> \<le> 10 ^ 100"
      and "\<forall>s\<in>set sites. \<bar>Longitude s\<bar> \<le> 10 ^ 100 \<and> \<bar>Latitude s\<bar> \<le> 10 ^ 100
                            \<and> Waste_Quantity s \<le> 10 ^ 100"
  proof (cases "is_feasible g (x, y)")
    case True
    have "\<exists>r. objective_loop (data_frame sites) x y (Finite 0) = Finite r \<and> 0 \<le> r"
      by (rule loop_finite[OF that(2,3) data_frame_bounds[OF assms that(4)] order_refl
            twenty_rows[OF that(1)]])
    then show ?thesis using True by (simp del: is_feasible.simps)
  next
    case False
    then show ?thesis by (simp del: is_feasible.simps)
  qed
  have empty: "objective g (data_frame []) (x, y) = Finite 0" if "is_feasible g (x, y)"
    using that by (simp add: data_frame_def del: is_feasible.simps)
  show ?thesis
    using nn fin empty unfolding not_negative_iff by blast
qed

theorem objective_range_witness:
  "0 \<le> Waste_Quantity site_c \<and> length [site_c] \<le> 20 \<and> \<bar>3::real\<bar> \<le> 10 ^ 100 \<and>
   \<bar>7::real\<bar> \<le> 10 ^ 100 \<and> \<bar>Longitude site_c\<bar> \<le> 10 ^ 100 \<and> \<bar>Latitude site_c\<bar> \<le> 10 ^ 100 \<and>
   Waste_Quantity site_c \<le> 10 ^ 100 \<and> is_feasible open_geo (3, 7) \<and>
   objective open_geo (data_frame [site_c]) (3, 7) = Finite (48 / 100) \<and>
   objective open_geo (data_frame []) (3, 7) = Finite 0"
proof -
  have h: "\<forall>s\<in>set [site_c]. 0 \<le> Waste_Quantity s"
    by (simp add: site_c_def)
  have b: "\<bar>3::real\<bar> \<le> 10 ^ 100" "\<bar>7::real\<bar> \<le> 10 ^ 100" "\<bar>Longitude site_c\<bar> \<le> 10 ^ 100"
    "\<bar>Latitude site_c\<bar> \<le> 10 ^ 100" "Waste_Quantity site_c \<le> 10 ^ 100"
    by (simp_all add: site_c_def)
  show ?thesis
    using objective_range[OF h, of open_geo 3 7] b open_geo_feasible objective_site_c_far
    by (simp del: is_feasible.simps add: site_c_def)
qed

end
